theory Spec2Isabelle
  imports Main "HOL-Library.Word"
begin

section \<open>Go values shared by both source files\<close>

text \<open>
  A Go \<open>string\<close> is a sequence of bytes, as \<^typ>\<open>string\<close> is; \<open>string(data)\<close> on a byte
  slice is the identity here. A Go \<open>error\<close> is represented by the text its \<open>Error()\<close>
  method returns; \<open>nil\<close> is \<open>None\<close>, and a function returning \<open>(T, error)\<close> returns
  \<open>go_error + T\<close>. A run-time panic is a value of its own.
\<close>

type_synonym byte = "8 word"
type_synonym go_error = string

datatype panic = NilPointerDereference | IndexOutOfRange

definition LF :: char where
  "LF = CHR 0x0A"

subsection \<open>Package \<open>strings\<close> and \<open>fmt\<close>\<close>

definition HasSuffix :: "string \<Rightarrow> string \<Rightarrow> bool" where
  "HasSuffix s suffix \<longleftrightarrow>
     length s \<ge> length suffix \<and> drop (length s - length suffix) s = suffix"

definition TrimSuffix :: "string \<Rightarrow> string \<Rightarrow> string" where
  "TrimSuffix s suffix = (if HasSuffix s suffix then take (length s - length suffix) s else s)"

definition TrimLeft :: "string \<Rightarrow> string \<Rightarrow> string" where
  "TrimLeft s cutset = dropWhile (\<lambda>c. c \<in> set cutset) s"

fun Join :: "string list \<Rightarrow> string \<Rightarrow> string" where
  "Join [] sep = []"
| "Join [x] sep = x"
| "Join (x # y # ys) sep = x @ sep @ Join (y # ys) sep"

text \<open>The verb \<open>%d\<close> of \<open>fmt\<close> on an unsigned integer: its decimal digits.\<close>

fun decimal :: "nat \<Rightarrow> string" where
  "decimal n =
     (if n < 10 then [char_of (48 + n)] else decimal (n div 10) @ [char_of (48 + n mod 10)])"

declare decimal.simps [simp del]

subsection \<open>Package \<open>golang.org/x/crypto/ssh\<close>: public keys\<close>

text \<open>
  An \<open>ssh.PublicKey\<close> is seen through its two methods, \<open>Type()\<close> and \<open>Marshal()\<close>.
  \<open>ssh.MarshalAuthorizedKey\<close> writes the type, a space, the base64 of the wire form and a
  newline; the base64 encoder is a parameter.
\<close>

record PublicKey =
  key_Type :: string
  key_Marshal :: "byte list"

definition MarshalAuthorizedKey :: "(byte list \<Rightarrow> string) \<Rightarrow> PublicKey \<Rightarrow> string" where
  "MarshalAuthorizedKey b64 key = key_Type key @ '' '' @ b64 (key_Marshal key) @ [LF]"

definition HostCert :: "32 word" where
  "HostCert = 2"

definition UserCert :: "32 word" where
  "UserCert = 1"


section \<open>The storage backend: \<open>pkg/server/storage/mysql.go\<close>\<close>

subsection \<open>The database behind \<open>*sql.DB\<close>\<close>

text \<open>
  The MySQL server is not part of the repository. Its state is the two tables the storage
  code touches, the \<open>AUTO_INCREMENT\<close> counter of \<open>hostkeys\<close>, the insert id of the
  session, and two things the environment decides:
  \<^item> \<open>dup_insert_id\<close>: the insert id the server reports when
    \<open>INSERT ... ON DUPLICATE KEY UPDATE\<close> updates an existing row. It is a function of
    whether the row changed, of the session's last insert id and of the id of the updated
    row, so that it covers every reporting convention (the id of the row, the id of the
    last inserted row, zero);
  \<^item> \<open>exec_faults\<close>: for each coming call of \<open>Exec\<close>, whether the driver fails before the
    statement runs (a lost connection, a timeout) and with which text.
\<close>

text \<open>
  Modelled from the spec: the schema of the two tables (the migrations of the repository)
  is not among the sources. The spec describes "a table keyed by \<open>(principal, certType)\<close>
  storing \<open>pubkey\<close> as an authorized-key-format string and a backend-assigned identifier;
  a second table mapping external identity strings to usernames". So \<open>hostkeys\<close> has the
  columns of the statement and an \<open>AUTO_INCREMENT\<close> id, with a unique key on
  \<open>(hostname, cert_type)\<close>, and \<open>github_user_mappings\<close> has \<open>sso_identity\<close> as its
  key: it is a map from identities to user names.
\<close>

record hostkey =
  hk_id :: int
  hk_hostname :: string
  hk_pubkey :: string
  hk_cert_type :: string

record sql_DB =
  hostkeys :: "hostkey list"
  auto_increment :: int
  session_insert_id :: int
  github_user_mappings :: "string \<rightharpoonup> string"
  dup_insert_id :: "bool \<Rightarrow> int \<Rightarrow> int \<Rightarrow> int"
  exec_faults :: "go_error option list"

record sql_Result =
  LastInsertId :: int
  RowsAffected :: int

datatype sql_stmt = UpsertHostkey | DeleteMappingsNotIn nat | ReplaceMappings nat

definition upsert_sql :: string where
  "upsert_sql =
     ''INSERT INTO hostkeys (hostname, pubkey, cert_type) VALUES (?, ?, ?) ON DUPLICATE KEY UPDATE pubkey = ?''"

definition delete_sql_prefix :: string where
  "delete_sql_prefix = ''DELETE FROM github_user_mappings WHERE sso_identity NOT IN (''"

definition replace_sql_prefix :: string where
  "replace_sql_prefix =
     ''REPLACE INTO github_user_mappings (sso_identity, github_username) VALUES ''"

fun strip_prefix :: "string \<Rightarrow> string \<Rightarrow> string option" where
  "strip_prefix [] s = Some s"
| "strip_prefix (p # ps) [] = None"
| "strip_prefix (p # ps) (c # cs) = (if p = c then strip_prefix ps cs else None)"

text \<open>
  The grammar of the statements: a list of placeholders \<open>?,?,...\<close> and a list of rows
  \<open>(?, ?),(?, ?),...\<close>. Both need at least one element: MySQL has no empty \<open>IN ()\<close> and
  no empty \<open>VALUES\<close> list. The result is the number of elements.
\<close>

fun placeholders :: "string \<Rightarrow> nat option" where
  "placeholders [] = None"
| "placeholders (c # cs) =
     (if c \<noteq> CHR ''?'' then None
      else if cs = [] then Some 1
      else if hd cs = CHR '','' then map_option Suc (placeholders (tl cs))
      else None)"

fun value_rows :: "string \<Rightarrow> nat option" where
  "value_rows (a # b # c # d # e # f # rest) =
     (if [a, b, c, d, e, f] \<noteq> ''(?, ?)'' then None
      else if rest = [] then Some 1
      else if hd rest = CHR '','' then map_option Suc (value_rows (tl rest))
      else None)"
| "value_rows _ = None"

definition parse_sql :: "string \<Rightarrow> sql_stmt option" where
  "parse_sql q =
     (if q = upsert_sql then Some UpsertHostkey
      else case strip_prefix delete_sql_prefix q of
        Some rest \<Rightarrow>
          (if rest \<noteq> [] \<and> last rest = CHR '')''
           then map_option DeleteMappingsNotIn (placeholders (butlast rest))
           else None)
      | None \<Rightarrow>
          (case strip_prefix replace_sql_prefix q of
             Some rest \<Rightarrow> map_option ReplaceMappings (value_rows rest)
           | None \<Rightarrow> None))"

definition syntax_error :: go_error where
  "syntax_error = ''Error 1064: You have an error in your SQL syntax''"

definition argument_error :: go_error where
  "argument_error = ''sql: wrong number of arguments for the statement''"

text \<open>
  \<open>INSERT ... ON DUPLICATE KEY UPDATE pubkey = ?\<close>: a row with the same
  \<open>(hostname, cert_type)\<close> keeps its id and gets the key of the \<open>UPDATE\<close> clause;
  otherwise a row is inserted under the next \<open>AUTO_INCREMENT\<close> value, which is the
  insert id reported. \<open>RowsAffected\<close> follows MySQL: 1 for an insert, 2 for an update
  that changes the row, 0 for one that does not.
\<close>

definition same_key :: "string \<Rightarrow> string \<Rightarrow> hostkey \<Rightarrow> bool" where
  "same_key host typ r \<longleftrightarrow> hk_hostname r = host \<and> hk_cert_type r = typ"

definition upsert_hostkey ::
  "sql_DB \<Rightarrow> string \<Rightarrow> string \<Rightarrow> string \<Rightarrow> string \<Rightarrow> sql_Result \<times> sql_DB" where
  "upsert_hostkey db host key typ key' =
     (case find (same_key host typ) (hostkeys db) of
        Some old \<Rightarrow>
          (\<lparr>LastInsertId =
              dup_insert_id db (hk_pubkey old \<noteq> key') (session_insert_id db) (hk_id old),
            RowsAffected = (if hk_pubkey old \<noteq> key' then 2 else 0)\<rparr>,
           db\<lparr>hostkeys :=
                map (\<lambda>r. if same_key host typ r then r\<lparr>hk_pubkey := key'\<rparr> else r) (hostkeys db)\<rparr>)
      | None \<Rightarrow>
          (\<lparr>LastInsertId = auto_increment db, RowsAffected = 1\<rparr>,
           db\<lparr>hostkeys :=
                hostkeys db @
                [\<lparr>hk_id = auto_increment db, hk_hostname = host, hk_pubkey = key,
                  hk_cert_type = typ\<rparr>],
              auto_increment := auto_increment db + 1,
              session_insert_id := auto_increment db\<rparr>))"

text \<open>
  \<open>DELETE ... WHERE sso_identity NOT IN (...)\<close> keeps the rows whose identity is listed;
  \<open>REPLACE INTO ... VALUES ...\<close> stores the rows from left to right, a later row
  overwriting an earlier one with the same identity.
\<close>

fun replace_rows :: "(string \<rightharpoonup> string) \<Rightarrow> string list \<Rightarrow> (string \<rightharpoonup> string)" where
  "replace_rows t (k # v # args) = replace_rows (t(k \<mapsto> v)) args"
| "replace_rows t _ = t"

definition run_stmt :: "sql_DB \<Rightarrow> sql_stmt \<Rightarrow> string list \<Rightarrow> (go_error + sql_Result) \<times> sql_DB" where
  "run_stmt db st args =
     (case st of
        UpsertHostkey \<Rightarrow>
          (case args of
             [host, key, typ, key'] \<Rightarrow>
               (case upsert_hostkey db host key typ key' of (res, db') \<Rightarrow> (Inr res, db'))
           | _ \<Rightarrow> (Inl argument_error, db))
      | DeleteMappingsNotIn n \<Rightarrow>
          (if length args \<noteq> n then (Inl argument_error, db)
           else (Inr \<lparr>LastInsertId = 0, RowsAffected = 0\<rparr>,
                 db\<lparr>github_user_mappings := github_user_mappings db |` set args\<rparr>))
      | ReplaceMappings n \<Rightarrow>
          (if length args \<noteq> 2 * n then (Inl argument_error, db)
           else (Inr \<lparr>LastInsertId = 0, RowsAffected = int n\<rparr>,
                 db\<lparr>github_user_mappings := replace_rows (github_user_mappings db) args\<rparr>)))"

text \<open>
  \<open>my.DB.Exec(query, args...)\<close>: the driver may fail first (the next entry of
  \<open>exec_faults\<close>, none when the list is exhausted); then the server parses the statement
  and runs it.
\<close>

definition next_fault :: "go_error option list \<Rightarrow> go_error option" where
  "next_fault fs = (case fs of [] \<Rightarrow> None | f # _ \<Rightarrow> f)"

definition Exec :: "sql_DB \<Rightarrow> string \<Rightarrow> string list \<Rightarrow> (go_error + sql_Result) \<times> sql_DB" where
  "Exec db query args =
     (let db1 = db\<lparr>exec_faults := tl (exec_faults db)\<rparr> in
      case next_fault (exec_faults db) of
        Some e \<Rightarrow> (Inl e, db1)
      | None \<Rightarrow>
          (case parse_sql query of
             None \<Rightarrow> (Inl syntax_error, db1)
           | Some st \<Rightarrow> run_stmt db1 st args))"

subsection \<open>\<open>certTypeToMySQL\<close> and \<open>RecordIssuance\<close>\<close>

text \<open>
  \<open>RecordIssuance\<close> returns \<open>(0, err)\<close> on an error and \<open>(uint64(id), nil)\<close> otherwise
  (\<open>LastInsertId\<close> of the MySQL driver has no error): the error or the serial, and the
  database after the call.
\<close>

definition mysqlHostCert :: string where
  "mysqlHostCert = ''host_cert''"

definition mysqlUserCert :: string where
  "mysqlUserCert = ''user_cert''"

definition certTypeToMySQL :: "32 word \<Rightarrow> go_error + string" where
  "certTypeToMySQL certType =
     (if certType = HostCert then Inr mysqlHostCert
      else if certType = UserCert then Inr mysqlUserCert
      else Inl (''storage: unknown ssh cert type: '' @ decimal (unat certType)))"

definition RecordIssuance ::
  "(byte list \<Rightarrow> string) \<Rightarrow> sql_DB \<Rightarrow> 32 word \<Rightarrow> string \<Rightarrow> PublicKey
     \<Rightarrow> (go_error + 64 word) \<times> sql_DB" where
  "RecordIssuance b64 my certType princ pubkey =
     (let pkdata = MarshalAuthorizedKey b64 pubkey in
      case certTypeToMySQL certType of
        Inl err \<Rightarrow> (Inl err, my)
      | Inr typ \<Rightarrow>
          (case Exec my upsert_sql [princ, pkdata, typ, pkdata] of
             (Inl err, my') \<Rightarrow> (Inl (''error recording issuance: '' @ err), my')
           | (Inr result, my') \<Rightarrow> (Inr (word_of_int (LastInsertId result)), my')))"


subsection \<open>\<open>RecordGitHubMapping\<close>\<close>

text \<open>
  The Go map is given by its entries in the order in which this call's \<open>range\<close> loop
  visits them. The loop appends to four slices; \<open>collect\<close> is that loop.
\<close>

fun collect ::
  "(string \<times> string) list \<Rightarrow> string list \<times> string list \<times> string list \<times> string list
     \<Rightarrow> string list \<times> string list \<times> string list \<times> string list" where
  "collect [] acc = acc"
| "collect ((ssoIdentity, githubUser) # rest) (insertEntries, insertValues, deleteEntries, deleteValues) =
     collect rest
       (insertEntries @ [''(?, ?)''], (insertValues @ [ssoIdentity]) @ [githubUser],
        deleteEntries @ [''?''], deleteValues @ [ssoIdentity])"

definition RecordGitHubMapping :: "sql_DB \<Rightarrow> (string \<times> string) list \<Rightarrow> go_error option \<times> sql_DB" where
  "RecordGitHubMapping my mapping =
     (case collect mapping ([], [], [], []) of
        (insertEntries, insertValues, deleteEntries, deleteValues) \<Rightarrow>
          (let deleteStmt = delete_sql_prefix @ Join deleteEntries '','' @ '')'' in
           case Exec my deleteStmt deleteValues of
             (Inl err, my1) \<Rightarrow> (Some (''error deleting mappings: '' @ err), my1)
           | (Inr _, my1) \<Rightarrow>
               (let insertStmt = replace_sql_prefix @ Join insertEntries '','' in
                case Exec my1 insertStmt insertValues of
                  (Inl err, my2) \<Rightarrow> (Some (''error recording mapping: '' @ err), my2)
                | (Inr _, my2) \<Rightarrow> (None, my2))))"

text \<open>The argument list of the bulk insert: identity, user name, identity, user name, ...\<close>

definition flatten :: "(string \<times> string) list \<Rightarrow> string list" where
  "flatten m = concat (map (\<lambda>(k, v). [k, v]) m)"


section \<open>The enrollment handler: \<open>unnamed/part_000\<close>\<close>

subsection \<open>The database behind \<open>c.db\<close>\<close>

text \<open>
  The handler asks \<open>c.db.Driver()\<close> whether it talks to SQLite and picks its statement
  accordingly. Its statements name two columns of \<open>hostkeys\<close>, and the conflict they
  resolve is one on \<open>hostname\<close>.
\<close>

text \<open>
  Modelled from the spec: the schema is not among the sources; as above, a row has a
  backend-assigned identifier, and the unique key is the one the two named columns allow,
  \<open>hostname\<close>.
\<close>

text \<open>
  The two statements:
  \<^item> SQLite, \<open>INSERT OR REPLACE\<close>: the row with the same \<open>hostname\<close>, if any, is deleted
    and the new row is inserted under a new id.
  \<^item> MySQL, \<open>INSERT ... ON DUPLICATE KEY UPDATE pubkey = ?\<close>: as in the storage backend.
  A statement in the dialect of the other engine is a syntax error.
\<close>

datatype sql_driver = SQLiteDriver | MySQLDriver

record host_row =
  host_id :: int
  host_hostname :: string
  host_pubkey :: string

record host_DB =
  Driver :: sql_driver
  host_rows :: "host_row list"
  host_next_id :: int
  host_session_insert_id :: int
  host_dup_insert_id :: "bool \<Rightarrow> int \<Rightarrow> int \<Rightarrow> int"
  host_faults :: "go_error option list"

definition sqlite_replace_sql :: string where
  "sqlite_replace_sql = ''INSERT OR REPLACE INTO hostkeys (hostname, pubkey) VALUES (?, ?)''"

definition mysql_upsert_sql :: string where
  "mysql_upsert_sql =
     ''INSERT INTO hostkeys (hostname, pubkey) VALUES (?, ?) ON DUPLICATE KEY UPDATE pubkey = ?''"

definition insert_or_replace :: "host_DB \<Rightarrow> string \<Rightarrow> string \<Rightarrow> sql_Result \<times> host_DB" where
  "insert_or_replace db host key =
     (\<lparr>LastInsertId = host_next_id db, RowsAffected = 1\<rparr>,
      db\<lparr>host_rows :=
           filter (\<lambda>r. host_hostname r \<noteq> host) (host_rows db) @
           [\<lparr>host_id = host_next_id db, host_hostname = host, host_pubkey = key\<rparr>],
         host_next_id := host_next_id db + 1,
         host_session_insert_id := host_next_id db\<rparr>)"

definition insert_on_duplicate_update ::
  "host_DB \<Rightarrow> string \<Rightarrow> string \<Rightarrow> string \<Rightarrow> sql_Result \<times> host_DB" where
  "insert_on_duplicate_update db host key key' =
     (case find (\<lambda>r. host_hostname r = host) (host_rows db) of
        Some old \<Rightarrow>
          (\<lparr>LastInsertId =
              host_dup_insert_id db (host_pubkey old \<noteq> key') (host_session_insert_id db)
                (host_id old),
            RowsAffected = (if host_pubkey old \<noteq> key' then 2 else 0)\<rparr>,
           db\<lparr>host_rows :=
                map (\<lambda>r. if host_hostname r = host then r\<lparr>host_pubkey := key'\<rparr> else r)
                  (host_rows db)\<rparr>)
      | None \<Rightarrow>
          (\<lparr>LastInsertId = host_next_id db, RowsAffected = 1\<rparr>,
           db\<lparr>host_rows :=
                host_rows db @
                [\<lparr>host_id = host_next_id db, host_hostname = host, host_pubkey = key\<rparr>],
              host_next_id := host_next_id db + 1,
              host_session_insert_id := host_next_id db\<rparr>))"

definition host_Exec ::
  "host_DB \<Rightarrow> string \<Rightarrow> string list \<Rightarrow> (go_error + sql_Result) \<times> host_DB" where
  "host_Exec db query args =
     (let db1 = db\<lparr>host_faults := tl (host_faults db)\<rparr> in
      case next_fault (host_faults db) of
        Some e \<Rightarrow> (Inl e, db1)
      | None \<Rightarrow>
          (if Driver db = SQLiteDriver \<and> query = sqlite_replace_sql then
             (case args of
                [host, key] \<Rightarrow>
                  (case insert_or_replace db1 host key of (res, db') \<Rightarrow> (Inr res, db'))
              | _ \<Rightarrow> (Inl argument_error, db1))
           else if Driver db = MySQLDriver \<and> query = mysql_upsert_sql then
             (case args of
                [host, key, key'] \<Rightarrow>
                  (case insert_on_duplicate_update db1 host key key' of
                     (res, db') \<Rightarrow> (Inr res, db'))
              | _ \<Rightarrow> (Inl argument_error, db1))
           else (Inl syntax_error, db1)))"

text \<open>\<open>result.LastInsertId()\<close>: neither driver returns an error here.\<close>

definition Result_LastInsertId :: "sql_Result \<Rightarrow> go_error + int" where
  "Result_LastInsertId result = Inr (LastInsertId result)"

subsection \<open>Requests, certificates and the libraries\<close>

text \<open>
  Of an \<open>http.Request\<close> the handler uses the path variables (\<open>mux.Vars\<close>), the TLS
  connection state \<open>r.TLS\<close>, a pointer that is nil for a request that did not arrive over
  TLS, and the body, given by what \<open>ioutil.ReadAll\<close> returns on it. The type \<open>'x\<close> is that
  of X.509 certificates; a verified chain is a list of them, leaf first.
\<close>

record 'x ConnectionState =
  VerifiedChains :: "'x list list"

record 'x Request =
  Vars :: "string \<rightharpoonup> string"
  TLS :: "'x ConnectionState option"
  Body :: "go_error + string"

text \<open>The fields of \<open>ssh.Certificate\<close> that the handler or \<open>SignCert\<close> assigns.\<close>

record Certificate =
  Nonce :: "byte list"
  Key :: PublicKey
  Serial :: "64 word"
  CertType :: "32 word"
  KeyId :: string
  ValidPrincipals :: "string list"
  ValidAfter :: "64 word"
  ValidBefore :: "64 word"
  SignatureKey :: "PublicKey option"
  Signature :: "byte list option"

text \<open>
  An \<open>io.Reader\<close> of random bytes is the sequence of what it delivers from now on: at each
  position a byte, or the error with which the source fails there.
\<close>

type_synonym reader = "nat \<Rightarrow> go_error + byte"

text \<open>
  What the handler calls outside the repository, as parameters: \<open>x509\<close>'s
  \<open>VerifyHostname\<close> (\<open>None\<close> is the nil error), \<open>ssh.ParseAuthorizedKey\<close>,
  \<open>time.ParseDuration\<close> (a duration in nanoseconds), \<open>rand.Reader\<close> of \<open>crypto/rand\<close> as
  it stands when \<open>signHost\<close> is called, \<open>time.Now\<close> (nanoseconds since the epoch), the
  two methods \<open>PublicKey\<close> and \<open>Sign\<close> of a signer of type \<open>'s\<close> (\<open>Sign\<close> on the reader
  it is given and the certificate whose bytes it signs), base64 and the wire form of a
  certificate.
\<close>

record ('x, 's) libraries =
  VerifyHostname :: "'x \<Rightarrow> string \<Rightarrow> go_error option"
  ParseAuthorizedKey :: "string \<Rightarrow> go_error + PublicKey"
  ParseDuration :: "string \<Rightarrow> go_error + int"
  rand_Reader :: reader
  time_Now :: int
  signer_PublicKey :: "'s \<Rightarrow> PublicKey"
  Sign :: "'s \<Rightarrow> reader \<Rightarrow> Certificate \<Rightarrow> go_error + byte list"
  EncodeToString :: "byte list \<Rightarrow> string"
  Marshal :: "Certificate \<Rightarrow> byte list"

text \<open>The configuration \<open>c.conf\<close> and the context \<open>c\<close> of the handler.\<close>

record Config =
  CertDuration :: string
  StripSuffix :: string
  Aliases :: "string \<rightharpoonup> string list"

record 's server_context =
  conf :: Config
  signer :: 's

text \<open>
  What the handler changes: the database, the server log, and the body of the request, of
  which the number of reads is counted. What it answers: a status and a body.
\<close>

record world =
  db :: host_DB
  log_lines :: "string list"
  body_reads :: nat

record response =
  status :: nat
  body :: string

text \<open>
  \<open>io.ReadFull(r, b)\<close> with \<open>n = len(b)\<close>: the next \<open>n\<close> bytes of the reader, or the first
  error met on the way. After a read of \<open>n\<close> bytes the reader stands \<open>n\<close> positions
  further.
\<close>

fun ReadFull :: "reader \<Rightarrow> nat \<Rightarrow> go_error + byte list" where
  "ReadFull r 0 = Inr []"
| "ReadFull r (Suc n) =
     (case r 0 of
        Inl err \<Rightarrow> Inl err
      | Inr b \<Rightarrow>
          (case ReadFull (\<lambda>i. r (Suc i)) n of
             Inl err \<Rightarrow> Inl err
           | Inr bs \<Rightarrow> Inr (b # bs)))"

definition advance :: "reader \<Rightarrow> nat \<Rightarrow> reader" where
  "advance r n = (\<lambda>i. r (i + n))"

text \<open>
  \<open>rand.Read(b)\<close> is \<open>io.ReadFull(rand.Reader, b)\<close>: it returns an error, or fills \<open>b\<close>
  entirely (\<open>n == len(b)\<close> if and only if \<open>err == nil\<close>).
\<close>

definition rand_Read :: "('x, 's) libraries \<Rightarrow> byte list \<Rightarrow> go_error + byte list" where
  "rand_Read L b = ReadFull (rand_Reader L) (length b)"

text \<open>
  \<open>c.SignCert(rand, authority)\<close> of \<open>golang.org/x/crypto/ssh\<close>: it replaces the nonce of
  the certificate by 32 bytes that it reads from \<open>rand\<close> with \<open>io.ReadFull\<close>, and returns
  the error of that read; it sets the signature key to the public key of the authority;
  it lets the authority sign and stores the signature, or returns the error of the signer.
  It assigns no other field; \<open>signHost\<close> returns the certificate it was called on.
\<close>

definition SignCert ::
  "('x, 's) libraries \<Rightarrow> Certificate \<Rightarrow> reader \<Rightarrow> 's \<Rightarrow> go_error + Certificate" where
  "SignCert L c rand authority =
     (case ReadFull rand 32 of
        Inl err \<Rightarrow> Inl err
      | Inr nonce \<Rightarrow>
          (let c1 = c\<lparr>Nonce := nonce, SignatureKey := Some (signer_PublicKey L authority)\<rparr> in
           case Sign L authority (advance rand 32) c1 of
             Inl err \<Rightarrow> Inl err
           | Inr sg \<Rightarrow> Inr (c1\<lparr>Signature := Some sg\<rparr>)))"

text \<open>\<open>t.Unix()\<close>: the seconds of a time given in nanoseconds.\<close>

definition Unix :: "int \<Rightarrow> int" where
  "Unix t = t div 1000000000"

definition sshHostCertificateType :: "32 word" where
  "sshHostCertificateType = 2"

text \<open>\<open>http.Error(w, msg, code)\<close> answers \<open>code\<close> with \<open>msg\<close> and a newline.\<close>

definition http_Error :: "string \<Rightarrow> nat \<Rightarrow> response" where
  "http_Error msg code = \<lparr>status = code, body = msg @ [LF]\<rparr>"

definition StatusUnauthorized :: nat where
  "StatusUnauthorized = 401"

definition StatusForbidden :: nat where
  "StatusForbidden = 403"

definition StatusInternalServerError :: nat where
  "StatusInternalServerError = 500"

definition StatusOK :: nat where
  "StatusOK = 200"

subsection \<open>The functions of the handler\<close>

text \<open>\<open>mux.Vars(r)[name]\<close>: indexing a Go map with a missing key gives the empty string.\<close>

definition path_variable :: "'x Request \<Rightarrow> string \<Rightarrow> string" where
  "path_variable r name = (case Vars r name of Some h \<Rightarrow> h | None \<Rightarrow> [])"

text \<open>
  Both predicates dereference \<open>r.TLS\<close>; \<open>clientHostnameMatches\<close> indexes the first chain
  at 0.
\<close>

definition clientAuthenticated :: "'x Request \<Rightarrow> panic + bool" where
  "clientAuthenticated r =
     (case TLS r of
        None \<Rightarrow> Inl NilPointerDereference
      | Some conn \<Rightarrow> Inr (length (VerifiedChains conn) > 0))"

definition clientHostnameMatches ::
  "('x, 's) libraries \<Rightarrow> string \<Rightarrow> 'x Request \<Rightarrow> panic + bool" where
  "clientHostnameMatches L hostname r =
     (case TLS r of
        None \<Rightarrow> Inl NilPointerDereference
      | Some conn \<Rightarrow>
          if length (VerifiedChains conn) = 0 then Inr False
          else (case VerifiedChains conn ! 0 of
                  [] \<Rightarrow> Inl IndexOutOfRange
                | cert # _ \<Rightarrow> Inr (VerifyHostname L cert hostname = None)))"

text \<open>
  \<open>signHost\<close> returns \<open>(nil, err)\<close> or the signed template. The three assignments to
  \<open>principals\<close> are those of the source, in its order. \<open>rand.Read(nonce)\<close> has taken 32
  bytes of \<open>rand.Reader\<close> when \<open>SignCert\<close> is given that reader.
\<close>

definition signHost ::
  "('x, 's) libraries \<Rightarrow> 's server_context \<Rightarrow> string \<Rightarrow> 64 word \<Rightarrow> PublicKey
     \<Rightarrow> go_error + Certificate" where
  "signHost L c hostname serial pubkey =
     (case rand_Read L (replicate 32 0) of
        Inl err \<Rightarrow> Inl err
      | Inr nonce \<Rightarrow>
          (let startTime = time_Now L in
           case ParseDuration L (CertDuration (conf c)) of
             Inl err \<Rightarrow> Inl err
           | Inr week \<Rightarrow>
               (let endTime = startTime + week;
                    principals = [hostname];
                    principals =
                      (if StripSuffix (conf c) \<noteq> [] \<and> HasSuffix hostname (StripSuffix (conf c))
                       then principals @ [TrimSuffix hostname (StripSuffix (conf c))]
                       else principals);
                    principals =
                      (case Aliases (conf c) hostname of
                         Some aliases \<Rightarrow> principals @ aliases
                       | None \<Rightarrow> principals);
                    template =
                      \<lparr>Nonce = nonce, Key = pubkey, Serial = serial,
                       CertType = sshHostCertificateType, KeyId = hostname,
                       ValidPrincipals = principals,
                       ValidAfter = word_of_int (Unix startTime),
                       ValidBefore = word_of_int (Unix endTime),
                       SignatureKey = None, Signature = None\<rparr>
                in SignCert L template (advance (rand_Reader L) 32) (signer c))))"

text \<open>
  \<open>EnrollHost\<close> reads the body, parses the key, writes the row, and signs with the insert id
  as serial. Each \<open>return "", err\<close> is an \<open>Inl\<close>, with the state reached so far.
\<close>

definition EnrollHost ::
  "('x, 's) libraries \<Rightarrow> 's server_context \<Rightarrow> world \<Rightarrow> string \<Rightarrow> 'x Request
     \<Rightarrow> (go_error + string) \<times> world" where
  "EnrollHost L c w hostname r =
     (let w1 = w\<lparr>body_reads := Suc (body_reads w)\<rparr> in
      case Body r of
        Inl err \<Rightarrow> (Inl err, w1)
      | Inr data \<Rightarrow>
          (let encodedPubkey = TrimLeft data [LF] in
           case ParseAuthorizedKey L data of
             Inl err \<Rightarrow> (Inl err, w1)
           | Inr pubkey \<Rightarrow>
               (case (if Driver (db w1) = SQLiteDriver
                      then host_Exec (db w1) sqlite_replace_sql [encodedPubkey, hostname]
                      else host_Exec (db w1) mysql_upsert_sql
                             [hostname, encodedPubkey, encodedPubkey]) of
                  (Inl err, db') \<Rightarrow> (Inl err, w1\<lparr>db := db'\<rparr>)
                | (Inr result, db') \<Rightarrow>
                    (let w2 = w1\<lparr>db := db'\<rparr> in
                     case Result_LastInsertId result of
                       Inl err \<Rightarrow> (Inl err, w2)
                     | Inr id' \<Rightarrow>
                         (case signHost L c hostname (word_of_int id') pubkey of
                            Inl err \<Rightarrow> (Inl err, w2)
                          | Inr signedCert \<Rightarrow>
                              (let certString = EncodeToString L (Marshal L signedCert);
                                   header = key_Type (Key signedCert) @ ''-cert-v01@openssh.com ''
                               in (Inr (header @ certString), w2)))))))"

text \<open>
  \<open>Enroll\<close> answers 401 or 403 and returns, or calls \<open>EnrollHost\<close>; on its error it
  prints a line to the log and answers 500 through \<open>http.Error\<close>. A panic of a predicate
  ends the handler without an answer.
\<close>

definition Enroll ::
  "('x, 's) libraries \<Rightarrow> 's server_context \<Rightarrow> world \<Rightarrow> 'x Request
     \<Rightarrow> (panic + response) \<times> world" where
  "Enroll L c w r =
     (let hostname = path_variable r ''hostname'' in
      case clientAuthenticated r of
        Inl p \<Rightarrow> (Inl p, w)
      | Inr authenticated \<Rightarrow>
          if \<not> authenticated
          then (Inr (http_Error ''no client certificate provided'' StatusUnauthorized), w)
          else (case clientHostnameMatches L hostname r of
                  Inl p \<Rightarrow> (Inl p, w)
                | Inr matches \<Rightarrow>
                    if \<not> matches
                    then (Inr (http_Error ''hostname does not match certificate'' StatusForbidden), w)
                    else (case EnrollHost L c w hostname r of
                            (Inl err, w') \<Rightarrow>
                              (Inr (http_Error err StatusInternalServerError),
                               w'\<lparr>log_lines := log_lines w' @ [''internal error'']\<rparr>)
                          | (Inr cert, w') \<Rightarrow> (Inr \<lparr>status = StatusOK, body = cert\<rparr>, w'))))"



section \<open>Example inputs\<close>

text \<open>
  Concrete stand-ins for the libraries and the configuration, on which the functions are
  evaluated below. An X.509 certificate is the list of DNS names it is valid for.
\<close>

text \<open>
  An ed25519 public key in the authorized-key form, and what \<open>ssh.ParseAuthorizedKey\<close>
  makes of it: the wire form is the length-prefixed name \<open>ssh-ed25519\<close> and the
  length-prefixed 32 bytes of the key, which is what the base64 text encodes.
\<close>

definition example_key_text :: string where
  "example_key_text =
     ''ssh-ed25519 AAAAC3NzaC1lZDI1NTE5AAAAINdamAGCsQq31Uv+08lkBzoO4XLz2qYjJa8CGmj3B1Ea''"

definition example_key :: PublicKey where
  "example_key =
     \<lparr>key_Type = ''ssh-ed25519'',
      key_Marshal =
        [0, 0, 0, 11, 115, 115, 104, 45, 101, 100, 50, 53, 53, 49, 57, 0, 0, 0, 32,
         215, 90, 152, 1, 130, 177, 10, 183, 213, 75, 254, 211, 201, 100, 7, 58, 14,
         225, 114, 243, 218, 166, 35, 37, 175, 2, 26, 104, 247, 7, 81, 26]\<rparr>"

text \<open>
  The stand-in parser accepts that key and nothing else; the stand-in random source
  delivers the bytes 1, 2, 3, ... and never fails.
\<close>

definition example_libraries :: "(string list, unit) libraries" where
  "example_libraries =
     \<lparr>VerifyHostname =
        (\<lambda>cert h. if h \<in> set cert then None
                  else Some (''x509: certificate is not valid for '' @ h)),
      ParseAuthorizedKey =
        (\<lambda>data. if data = example_key_text then Inr example_key
                 else Inl ''ssh: no key found''),
      ParseDuration =
        (\<lambda>s. if s = ''168h'' then Inr 604800000000000
              else Inl (''time: invalid duration '' @ s)),
      rand_Reader = (\<lambda>i. Inr (of_nat (i + 1))),
      time_Now = 1500000000000000000,
      signer_PublicKey = (\<lambda>authority. \<lparr>key_Type = ''ssh-ed25519'', key_Marshal = []\<rparr>),
      Sign = (\<lambda>authority rand c. Inr []),
      EncodeToString = (\<lambda>bs. replicate (length bs) CHR ''A''),
      Marshal = (\<lambda>c. [])\<rparr>"

definition example_context :: "unit server_context" where
  "example_context =
     \<lparr>conf = \<lparr>CertDuration = ''168h'', StripSuffix = ''.internal.example.com'',
              Aliases = Map.empty\<rparr>,
      signer = ()\<rparr>"

definition example_certificate :: "string list" where
  "example_certificate = [''db1.internal.example.com'']"

definition example_request :: "string \<Rightarrow> string list Request" where
  "example_request host =
     \<lparr>Vars = [''hostname'' \<mapsto> host],
      TLS = Some \<lparr>VerifiedChains = [example_certificate] # []\<rparr>,
      Body = Inr example_key_text\<rparr>"

definition example_world :: "sql_driver \<Rightarrow> go_error option list \<Rightarrow> world" where
  "example_world drv faults =
     \<lparr>db = \<lparr>Driver = drv, host_rows = [], host_next_id = 1, host_session_insert_id = 0,
            host_dup_insert_id = (\<lambda>changed last row. row), host_faults = faults\<rparr>,
      log_lines = [], body_reads = 0\<rparr>"

definition example_storage :: "(string \<rightharpoonup> string) \<Rightarrow> go_error option list \<Rightarrow> sql_DB" where
  "example_storage table faults =
     \<lparr>hostkeys = [], auto_increment = 1, session_insert_id = 0,
      github_user_mappings = table, dup_insert_id = (\<lambda>changed last row. row),
      exec_faults = faults\<rparr>"


section \<open>Properties of the storage backend\<close>

subsection \<open>The statements and what the server does with them\<close>

lemma collect_eq:
  "collect m (ie, iv, de, dv) =
     (ie @ replicate (length m) ''(?, ?)'', iv @ flatten m,
      de @ replicate (length m) ''?'', dv @ map fst m)"
proof (induction m arbitrary: ie iv de dv)
  case Nil
  then show ?case by (simp add: flatten_def)
next
  case (Cons a m)
  obtain k v where a: "a = (k, v)" by (cases a)
  show ?case
    unfolding a by (simp add: Cons.IH flatten_def replicate_append_same)
qed

lemma length_flatten: "length (flatten m) = 2 * length m"
  by (induction m) (auto simp: flatten_def)

lemma strip_prefix_append: "strip_prefix p (p @ s) = Some s"
  by (induction p) simp_all

lemma placeholders_Join:
  "placeholders (Join (replicate n ''?'') '','') = (if n = 0 then None else Some n)"
proof (induction n rule: less_induct)
  case (less n)
  show ?case
  proof (cases n)
    case 0
    then show ?thesis by simp
  next
    case (Suc m)
    show ?thesis
    proof (cases m)
      case 0
      with Suc show ?thesis by simp
    next
      case (Suc k)
      with \<open>n = Suc m\<close> less.IH [of m] show ?thesis by simp
    qed
  qed
qed

lemma value_rows_Join:
  "value_rows (Join (replicate n ''(?, ?)'') '','') = (if n = 0 then None else Some n)"
proof (induction n rule: less_induct)
  case (less n)
  show ?case
  proof (cases n)
    case 0
    then show ?thesis by simp
  next
    case (Suc m)
    show ?thesis
    proof (cases m)
      case 0
      with Suc show ?thesis by simp
    next
      case (Suc k)
      with \<open>n = Suc m\<close> less.IH [of m] show ?thesis by simp
    qed
  qed
qed

lemma parse_sql_delete:
  "parse_sql (delete_sql_prefix @ txt @ '')'') = map_option DeleteMappingsNotIn (placeholders txt)"
proof -
  have "delete_sql_prefix @ txt @ '')'' \<noteq> upsert_sql"
    by (simp add: delete_sql_prefix_def upsert_sql_def)
  then show ?thesis
    by (simp add: parse_sql_def strip_prefix_append butlast_append)
qed

lemma parse_sql_replace:
  "parse_sql (replace_sql_prefix @ txt) = map_option ReplaceMappings (value_rows txt)"
proof -
  have 1: "replace_sql_prefix @ txt \<noteq> upsert_sql"
    by (simp add: replace_sql_prefix_def upsert_sql_def)
  have 2: "strip_prefix delete_sql_prefix (replace_sql_prefix @ txt) = None"
    by (simp add: replace_sql_prefix_def delete_sql_prefix_def)
  show ?thesis
    using 1 by (simp add: parse_sql_def 2 strip_prefix_append)
qed

lemma parse_sql_upsert: "parse_sql upsert_sql = Some UpsertHostkey"
  by (simp add: parse_sql_def)

lemma replace_rows_flatten: "replace_rows t (flatten m) = t ++ map_of (rev m)"
proof (induction m arbitrary: t)
  case Nil
  then show ?case by (simp add: flatten_def)
next
  case (Cons a m)
  obtain k v where a: "a = (k, v)" by (cases a)
  have "replace_rows t (flatten (a # m)) = replace_rows (t(k \<mapsto> v)) (flatten m)"
    by (simp add: a flatten_def)
  also have "\<dots> = t(k \<mapsto> v) ++ map_of (rev m)" by (rule Cons.IH)
  also have "\<dots> = t ++ map_of (rev (a # m))"
    by (simp add: a map_add_def fun_eq_iff split: option.splits)
  finally show ?case .
qed

lemma restrict_then_replace:
  "(t |` (fst ` set m)) ++ map_of (rev m) = map_of (rev m)"
proof
  fix k
  show "((t |` (fst ` set m)) ++ map_of (rev m)) k = map_of (rev m) k"
  proof (cases "k \<in> fst ` set m")
    case True
    then have "k \<in> dom (map_of (rev m))" by (simp add: dom_map_of_conv_image_fst)
    then show ?thesis by (auto simp: map_add_def split: option.splits)
  next
    case False
    then have "map_of (rev m) k = None" by (simp add: map_of_eq_None_iff)
    with False show ?thesis by (simp add: map_add_def restrict_map_def)
  qed
qed

lemma Exec_delete:
  "Exec my (delete_sql_prefix @ txt @ '')'') args =
     (let my1 = my\<lparr>exec_faults := tl (exec_faults my)\<rparr> in
      case next_fault (exec_faults my) of
        Some e \<Rightarrow> (Inl e, my1)
      | None \<Rightarrow>
         (case placeholders txt of
            None \<Rightarrow> (Inl syntax_error, my1)
          | Some n \<Rightarrow>
             if length args \<noteq> n then (Inl argument_error, my1)
             else (Inr \<lparr>LastInsertId = 0, RowsAffected = 0\<rparr>,
                   my1\<lparr>github_user_mappings := github_user_mappings my |` set args\<rparr>)))"
  unfolding Exec_def parse_sql_delete
  by (simp add: run_stmt_def Let_def split: option.splits)

lemma Exec_replace:
  "Exec my (replace_sql_prefix @ txt) args =
     (let my1 = my\<lparr>exec_faults := tl (exec_faults my)\<rparr> in
      case next_fault (exec_faults my) of
        Some e \<Rightarrow> (Inl e, my1)
      | None \<Rightarrow>
         (case value_rows txt of
            None \<Rightarrow> (Inl syntax_error, my1)
          | Some n \<Rightarrow>
             if length args \<noteq> 2 * n then (Inl argument_error, my1)
             else (Inr \<lparr>LastInsertId = 0, RowsAffected = int n\<rparr>,
                   my1\<lparr>github_user_mappings := replace_rows (github_user_mappings my) args\<rparr>)))"
  unfolding Exec_def parse_sql_replace
  by (simp add: run_stmt_def Let_def split: option.splits)

lemma Exec_upsert:
  "Exec my upsert_sql [h, k, t, k'] =
     (case next_fault (exec_faults my) of
        Some e \<Rightarrow> (Inl e, my\<lparr>exec_faults := tl (exec_faults my)\<rparr>)
      | None \<Rightarrow>
          (case upsert_hostkey (my\<lparr>exec_faults := tl (exec_faults my)\<rparr>) h k t k' of
             (res, db') \<Rightarrow> (Inr res, db')))"
  unfolding Exec_def parse_sql_upsert
  by (simp add: run_stmt_def Let_def split: option.splits)

lemma RecordGitHubMapping_unfold:
  "RecordGitHubMapping my mapping =
     (case Exec my (delete_sql_prefix @ Join (replicate (length mapping) ''?'') '','' @ '')'')
             (map fst mapping) of
        (Inl err, my1) \<Rightarrow> (Some (''error deleting mappings: '' @ err), my1)
      | (Inr _, my1) \<Rightarrow>
          (case Exec my1 (replace_sql_prefix @ Join (replicate (length mapping) ''(?, ?)'') '','')
                  (flatten mapping) of
             (Inl err, my2) \<Rightarrow> (Some (''error recording mapping: '' @ err), my2)
           | (Inr _, my2) \<Rightarrow> (None, my2)))"
  unfolding RecordGitHubMapping_def collect_eq
  by (simp add: Let_def split: prod.splits sum.splits)

lemma RecordIssuance_unfold:
  assumes "certTypeToMySQL certType = Inr typ"
  shows "RecordIssuance b64 my certType princ pubkey =
     (case next_fault (exec_faults my) of
        Some e \<Rightarrow> (Inl (''error recording issuance: '' @ e), my\<lparr>exec_faults := tl (exec_faults my)\<rparr>)
      | None \<Rightarrow>
          (case upsert_hostkey (my\<lparr>exec_faults := tl (exec_faults my)\<rparr>) princ
                  (MarshalAuthorizedKey b64 pubkey) typ (MarshalAuthorizedKey b64 pubkey) of
             (res, my') \<Rightarrow> (Inr (word_of_int (LastInsertId res)), my')))"
  unfolding RecordIssuance_def Exec_upsert using assms
  by (simp add: Let_def split: option.splits prod.splits)

subsection \<open>\<open>RecordIssuance\<close>\<close>

text \<open>
  C10. For every \<open>certType\<close> other than \<open>ssh.HostCert\<close> and \<open>ssh.UserCert\<close>,
  \<open>RecordIssuance\<close> returns an error and the database is exactly as before: no statement
  is sent, the \<open>hostkeys\<close> table is unchanged.
\<close>

theorem RecordIssuance_unknown_certType:
  assumes "certType \<noteq> HostCert" and "certType \<noteq> UserCert"
  shows "RecordIssuance b64 my certType princ pubkey =
           (Inl (''storage: unknown ssh cert type: '' @ decimal (unat certType)), my)"
  using assms by (simp add: RecordIssuance_def certTypeToMySQL_def)

text \<open>C10 at \<open>certType = 3\<close>.\<close>

theorem RecordIssuance_unknown_certType_witness:
  "(3 :: 32 word) \<noteq> HostCert \<and> (3 :: 32 word) \<noteq> UserCert \<and>
   RecordIssuance (\<lambda>bs. []) (example_storage Map.empty []) 3 ''db1''
     \<lparr>key_Type = ''ssh-ed25519'', key_Marshal = []\<rparr> =
     (Inl ''storage: unknown ssh cert type: 3'', example_storage Map.empty [])"
proof -
  have h: "(3 :: 32 word) \<noteq> HostCert" "(3 :: 32 word) \<noteq> UserCert"
    by (simp_all add: HostCert_def UserCert_def)
  have d: "decimal (unat (3 :: 32 word)) = ''3''"
    by code_simp
  show ?thesis
    using h RecordIssuance_unknown_certType [OF h, of "\<lambda>bs. []" "example_storage Map.empty []"
        "''db1''" "\<lparr>key_Type = ''ssh-ed25519'', key_Marshal = []\<rparr>"] d
    by simp
qed

text \<open>
  An upsert that finds the row of \<open>(principal, certType)\<close> changes no id: the row keeps
  the id it was inserted under, whatever the server reports as insert id.
\<close>

lemma upsert_hostkey_ids:
  assumes "find (same_key host typ) (hostkeys my) = Some old"
  shows "map hk_id (hostkeys (snd (upsert_hostkey my host key typ key'))) = map hk_id (hostkeys my)"
  using assms by (simp add: upsert_hostkey_def comp_def if_distrib cong: if_cong)

lemma RecordIssuance_keeps_row_ids:
  assumes "certTypeToMySQL certType = Inr typ"
    and "find (same_key princ typ) (hostkeys my) = Some old"
  shows "map hk_id (hostkeys (snd (RecordIssuance b64 my certType princ pubkey))) =
           map hk_id (hostkeys my)"
proof (cases "next_fault (exec_faults my)")
  case None
  have f: "find (same_key princ typ) (hostkeys (my\<lparr>exec_faults := tl (exec_faults my)\<rparr>)) = Some old"
    using assms(2) by simp
  show ?thesis
    unfolding RecordIssuance_unfold [OF assms(1)]
    using None upsert_hostkey_ids [OF f, of "MarshalAuthorizedKey b64 pubkey" "MarshalAuthorizedKey b64 pubkey"]
    by (auto split: prod.splits)
next
  case (Some e)
  then show ?thesis
    unfolding RecordIssuance_unfold [OF assms(1)] by simp
qed

text \<open>
  C1 asks that a second enrollment of a principal returns a serial that differs from the
  serial of the first and that is the identifier of the row after the write. On the empty
  table, a first \<open>RecordIssuance\<close> for \<open>db1\<close> inserts the row under id 1 and returns 1.
  A second one with another key updates that row in place: its id is still 1, and the
  serial returned is whatever the server reports for an update (\<open>report\<close>). Whatever that
  is, it cannot be both different from the first serial and the id of the row.
\<close>

theorem RecordIssuance_update_serial:
  "case RecordIssuance b64
          \<lparr>hostkeys = [], auto_increment = 1, session_insert_id = 0,
           github_user_mappings = Map.empty, dup_insert_id = report, exec_faults = []\<rparr>
          HostCert ''db1'' key1 of
     (r1, my1) \<Rightarrow>
       (case RecordIssuance b64 my1 HostCert ''db1'' key2 of
          (r2, my2) \<Rightarrow>
            r1 = Inr 1 \<and>
            hostkeys my2 =
              [\<lparr>hk_id = 1, hk_hostname = ''db1'', hk_pubkey = MarshalAuthorizedKey b64 key2,
                hk_cert_type = mysqlHostCert\<rparr>] \<and>
            r2 = Inr (word_of_int
                   (report (MarshalAuthorizedKey b64 key1 \<noteq> MarshalAuthorizedKey b64 key2) 1 1)) \<and>
            \<not> (r2 \<noteq> r1 \<and> r2 = Inr (word_of_int 1)))"
proof -
  have t: "certTypeToMySQL HostCert = Inr mysqlHostCert"
    by (simp add: certTypeToMySQL_def)
  show ?thesis
    unfolding RecordIssuance_unfold [OF t]
    by (simp add: next_fault_def upsert_hostkey_def same_key_def)
qed

text \<open>What the upsert does to the rows of its key.\<close>

lemma find_None_filter: "find P xs = None \<longleftrightarrow> filter P xs = []"
  by (induction xs) simp_all

lemma upsert_hostkey_None:
  assumes "find (same_key host typ) (hostkeys my) = None"
  shows "hostkeys (snd (upsert_hostkey my host key typ key')) =
           hostkeys my @
           [\<lparr>hk_id = auto_increment my, hk_hostname = host, hk_pubkey = key, hk_cert_type = typ\<rparr>]"
  using assms by (simp add: upsert_hostkey_def)

lemma upsert_hostkey_Some:
  assumes "find (same_key host typ) (hostkeys my) = Some old"
  shows "hostkeys (snd (upsert_hostkey my host key typ key')) =
           map (\<lambda>r. if same_key host typ r then r\<lparr>hk_pubkey := key'\<rparr> else r) (hostkeys my)"
  using assms by (simp add: upsert_hostkey_def)

lemma filter_same_key_update:
  "filter (same_key host typ)
     (map (\<lambda>r. if same_key host typ r then r\<lparr>hk_pubkey := key\<rparr> else r) rows) =
   map (\<lambda>r. r\<lparr>hk_pubkey := key\<rparr>) (filter (same_key host typ) rows)"
  by (induction rows) (simp_all add: same_key_def)

lemma upsert_hostkey_sets_key:
  "list_all (\<lambda>r. \<not> same_key host typ r \<or> hk_pubkey r = key)
     (hostkeys (snd (upsert_hostkey my host key typ key)))"
proof (cases "find (same_key host typ) (hostkeys my)")
  case None
  then have "list_all (\<lambda>r. \<not> same_key host typ r) (hostkeys my)"
    by (simp add: find_None_iff list_all_iff)
  then have "list_all (\<lambda>r. \<not> same_key host typ r \<or> hk_pubkey r = key) (hostkeys my)"
    by (simp add: list_all_iff)
  then show ?thesis unfolding upsert_hostkey_None [OF None] by simp
next
  case (Some old)
  show ?thesis
    unfolding upsert_hostkey_Some [OF Some] by (auto simp: list_all_iff)
qed

lemma upsert_hostkey_finds:
  "find (same_key host typ) (hostkeys (snd (upsert_hostkey my host key typ key))) \<noteq> None"
proof (cases "find (same_key host typ) (hostkeys my)")
  case None
  let ?new = "\<lparr>hk_id = auto_increment my, hk_hostname = host, hk_pubkey = key,
               hk_cert_type = typ\<rparr>"
  have "?new \<in> set (hostkeys my @ [?new]) \<and> same_key host typ ?new"
    by (simp add: same_key_def)
  then have "\<exists>x. x \<in> set (hostkeys my @ [?new]) \<and> same_key host typ x"
    by (rule exI)
  then show ?thesis
    unfolding upsert_hostkey_None [OF None] find_None_iff by simp
next
  case (Some old)
  then have "filter (same_key host typ) (hostkeys my) \<noteq> []"
    by (simp flip: find_None_filter)
  then have "filter (same_key host typ)
      (map (\<lambda>r. if same_key host typ r then r\<lparr>hk_pubkey := key\<rparr> else r) (hostkeys my)) \<noteq> []"
    unfolding filter_same_key_update by simp
  then show ?thesis
    unfolding upsert_hostkey_Some [OF Some] find_None_filter .
qed

lemma upsert_hostkey_count:
  assumes "length (filter (same_key host typ) (hostkeys my)) \<le> 1"
  shows "map hk_pubkey (filter (same_key host typ)
           (hostkeys (snd (upsert_hostkey my host key typ key)))) = [key]"
proof (cases "find (same_key host typ) (hostkeys my)")
  case None
  then have "filter (same_key host typ) (hostkeys my) = []"
    by (simp add: find_None_filter)
  then show ?thesis
    unfolding upsert_hostkey_None [OF None] by (simp add: same_key_def)
next
  case (Some old)
  then have "filter (same_key host typ) (hostkeys my) \<noteq> []"
    by (simp flip: find_None_filter)
  with assms obtain r where "filter (same_key host typ) (hostkeys my) = [r]"
    by (cases "filter (same_key host typ) (hostkeys my)") auto
  then show ?thesis
    unfolding upsert_hostkey_Some [OF Some] filter_same_key_update by simp
qed

lemma upsert_hostkey_again:
  assumes "list_all (\<lambda>r. \<not> same_key host typ r \<or> hk_pubkey r = key) (hostkeys my)"
    and "find (same_key host typ) (hostkeys my) \<noteq> None"
  shows "hostkeys (snd (upsert_hostkey my host key typ key)) = hostkeys my"
proof -
  from assms(2) obtain old where o: "find (same_key host typ) (hostkeys my) = Some old"
    by blast
  have "map (\<lambda>r. if same_key host typ r then r\<lparr>hk_pubkey := key\<rparr> else r) (hostkeys my) =
        hostkeys my"
    using assms(1) by (intro map_idI) (auto simp: list_all_iff)
  then show ?thesis unfolding upsert_hostkey_Some [OF o] .
qed

text \<open>
  Repeating \<open>RecordIssuance\<close> with the same principal, type and key, on a table that
  respects its unique key and with no driver failure: the second call leaves the table as
  the first one made it, with one row for the principal, holding the submitted key.
\<close>

lemma RecordIssuance_idempotent:
  assumes t: "certTypeToMySQL certType = Inr typ"
    and f1: "next_fault (exec_faults my) = None"
    and f2: "next_fault (tl (exec_faults my)) = None"
    and u: "length (filter (same_key princ typ) (hostkeys my)) \<le> 1"
  shows "case RecordIssuance b64 my certType princ pubkey of
           (r1, my1) \<Rightarrow>
             (case RecordIssuance b64 my1 certType princ pubkey of
                (r2, my2) \<Rightarrow>
                  hostkeys my2 = hostkeys my1 \<and>
                  map hk_pubkey (filter (same_key princ typ) (hostkeys my2)) =
                    [MarshalAuthorizedKey b64 pubkey])"
proof -
  let ?k = "MarshalAuthorizedKey b64 pubkey"
  let ?my0 = "my\<lparr>exec_faults := tl (exec_faults my)\<rparr>"
  let ?my1 = "snd (upsert_hostkey ?my0 princ ?k typ ?k)"
  have e1: "exec_faults ?my1 = tl (exec_faults my)"
    by (simp add: upsert_hostkey_def split: option.splits)
  have r1: "snd (RecordIssuance b64 my certType princ pubkey) = ?my1"
    unfolding RecordIssuance_unfold [OF t] using f1 by (simp split: prod.splits)
  let ?my1' = "?my1\<lparr>exec_faults := tl (exec_faults ?my1)\<rparr>"
  have r2: "snd (RecordIssuance b64 ?my1 certType princ pubkey) =
              snd (upsert_hostkey ?my1' princ ?k typ ?k)"
    unfolding RecordIssuance_unfold [OF t] using f2 e1 by (simp split: prod.splits)
  have h: "hostkeys ?my1' = hostkeys ?my1" by simp
  have a: "hostkeys (snd (upsert_hostkey ?my1' princ ?k typ ?k)) = hostkeys ?my1'"
    by (rule upsert_hostkey_again)
       (simp_all only: h upsert_hostkey_sets_key upsert_hostkey_finds not_False_eq_True)
  have c: "map hk_pubkey (filter (same_key princ typ) (hostkeys ?my1)) = [?k]"
    using u by (intro upsert_hostkey_count) simp
  have "hostkeys (snd (upsert_hostkey ?my1' princ ?k typ ?k)) = hostkeys ?my1 \<and>
        map hk_pubkey (filter (same_key princ typ)
          (hostkeys (snd (upsert_hostkey ?my1' princ ?k typ ?k)))) = [?k]"
    unfolding a h using c by simp
  then show ?thesis
    unfolding case_prod_beta r1 r2 .
qed

subsection \<open>\<open>RecordGitHubMapping\<close>\<close>

text \<open>
  C4 asks that \<open>RecordGitHubMapping\<close> with the empty mapping succeeds and empties the
  table. With no entry, \<open>deleteEntries\<close> is empty and the statement reads
  \<open>... NOT IN ()\<close>, which the server rejects: in every state of the database the call
  returns an error and the mapping table is unchanged. On a table with one row and a
  healthy connection the error is the syntax error of the delete.
\<close>

theorem RecordGitHubMapping_empty_mapping_fails:
  "fst (RecordGitHubMapping my []) \<noteq> None \<and>
   github_user_mappings (snd (RecordGitHubMapping my [])) = github_user_mappings my \<and>
   RecordGitHubMapping (example_storage [''alice'' \<mapsto> ''alice-gh''] []) [] =
     (Some (''error deleting mappings: '' @ syntax_error),
      example_storage [''alice'' \<mapsto> ''alice-gh''] [])"
  unfolding RecordGitHubMapping_unfold Exec_delete
  by (simp add: Let_def example_storage_def next_fault_def split: option.splits)

text \<open>
  C5 asks that the delete cannot take effect while the insert is not applied. Here the
  delete succeeds and the connection fails on the insert: the call returns the error of the
  insert, the row of \<open>bob\<close> is gone and \<open>alice\<close> still has her old user name.
\<close>

theorem RecordGitHubMapping_delete_without_insert:
  "case RecordGitHubMapping
          (example_storage [''alice'' \<mapsto> ''alice-old'', ''bob'' \<mapsto> ''bob-old'']
             [None, Some ''invalid connection''])
          [(''alice'', ''alice-new'')] of
     (res, my') \<Rightarrow>
       res = Some ''error recording mapping: invalid connection'' \<and>
       github_user_mappings my' ''bob'' = None \<and>
       github_user_mappings my' ''alice'' = Some ''alice-old''"
  unfolding RecordGitHubMapping_unfold Exec_delete Exec_replace
  by (simp add: example_storage_def next_fault_def restrict_map_def)

text \<open>
  C5, as the code has it. For a mapping with at least one entry, the delete and the insert
  are two statements sent one after the other:
  \<^item> if the delete fails, the call returns its error and the table is unchanged;
  \<^item> if the delete succeeds and the insert fails, the call returns the error of the insert
    and the table is the old one restricted to the identities of the mapping: the stale
    rows are gone, and every identity of the mapping still has its old row;
  \<^item> if both succeed, the table is exactly the mapping.
\<close>

theorem RecordGitHubMapping_steps:
  assumes "mapping \<noteq> []"
  shows "RecordGitHubMapping my mapping =
    (case next_fault (exec_faults my) of
       Some e \<Rightarrow>
         (Some (''error deleting mappings: '' @ e), my\<lparr>exec_faults := tl (exec_faults my)\<rparr>)
     | None \<Rightarrow>
        (case next_fault (tl (exec_faults my)) of
           Some e \<Rightarrow>
             (Some (''error recording mapping: '' @ e),
              my\<lparr>exec_faults := tl (tl (exec_faults my)),
                 github_user_mappings := github_user_mappings my |` (fst ` set mapping)\<rparr>)
         | None \<Rightarrow>
             (None,
              my\<lparr>exec_faults := tl (tl (exec_faults my)),
                 github_user_mappings := map_of (rev mapping)\<rparr>)))"
proof -
  have n: "length mapping \<noteq> 0" using assms by simp
  show ?thesis
    unfolding RecordGitHubMapping_unfold Exec_delete Exec_replace
    using n
    by (simp add: placeholders_Join value_rows_Join length_flatten
        replace_rows_flatten restrict_then_replace Let_def
        split: option.splits)
qed

text \<open>The case where both statements succeed, on a table of two rows.\<close>

theorem RecordGitHubMapping_steps_witness:
  "[(''alice'', ''alice-new''), (''carol'', ''carol-gh'')] \<noteq> [] \<and>
   fst (RecordGitHubMapping
          (example_storage [''alice'' \<mapsto> ''alice-old'', ''bob'' \<mapsto> ''bob-old''] [])
          [(''alice'', ''alice-new''), (''carol'', ''carol-gh'')]) = None \<and>
   map (github_user_mappings (snd (RecordGitHubMapping
          (example_storage [''alice'' \<mapsto> ''alice-old'', ''bob'' \<mapsto> ''bob-old''] [])
          [(''alice'', ''alice-new''), (''carol'', ''carol-gh'')])))
     [''alice'', ''bob'', ''carol''] = [Some ''alice-new'', None, Some ''carol-gh'']"
proof -
  have h: "[(''alice'', ''alice-new''), (''carol'', ''carol-gh'')] \<noteq> []" by simp
  show ?thesis
    unfolding RecordGitHubMapping_steps [OF h]
    by (simp add: example_storage_def next_fault_def)
qed


section \<open>Properties of the enrollment handler\<close>

subsection \<open>The authorization predicates\<close>

text \<open>
  C8 asks that both predicates return false, rather than crash, when the transport state is
  missing. A request that did not arrive over TLS has \<open>r.TLS = nil\<close>, and both
  predicates dereference it.
\<close>

theorem AuthGate_panics_without_TLS:
  "clientAuthenticated (example_request ''db1.internal.example.com'' \<lparr>TLS := None\<rparr>) =
     Inl NilPointerDereference \<and>
   clientHostnameMatches example_libraries ''db1.internal.example.com''
     (example_request ''db1.internal.example.com'' \<lparr>TLS := None\<rparr>) = Inl NilPointerDereference"
  by (simp add: clientAuthenticated_def clientHostnameMatches_def example_request_def)

text \<open>
  C8, as the code has it. When the request carries a TLS connection state, both predicates
  return false if it has no verified chain, and \<open>clientHostnameMatches\<close> returns false if
  the leaf of the first verified chain does not verify the host name. When the request
  carries no TLS connection state, both predicates panic on the nil dereference; they do
  not return true.
\<close>

theorem AuthGate_fail_closed:
  "(TLS r = Some conn \<and> VerifiedChains conn = [] \<longrightarrow>
      clientAuthenticated r = Inr False \<and> clientHostnameMatches L hostname r = Inr False) \<and>
   (TLS r = Some conn \<and> VerifiedChains conn = (leaf # rest) # others \<and>
    VerifyHostname L leaf hostname \<noteq> None \<longrightarrow>
      clientHostnameMatches L hostname r = Inr False) \<and>
   (TLS r = None \<longrightarrow>
      clientAuthenticated r = Inl NilPointerDereference \<and>
      clientHostnameMatches L hostname r = Inl NilPointerDereference)"
  by (simp add: clientAuthenticated_def clientHostnameMatches_def)

text \<open>
  The three cases: a connection without verified chain, a certificate for another host
  name, and no TLS connection state.
\<close>

theorem AuthGate_fail_closed_witness:
  "clientAuthenticated (example_request ''h'' \<lparr>TLS := Some \<lparr>VerifiedChains = []\<rparr>\<rparr>) = Inr False \<and>
   clientHostnameMatches example_libraries ''h''
     (example_request ''h'' \<lparr>TLS := Some \<lparr>VerifiedChains = []\<rparr>\<rparr>) = Inr False \<and>
   clientHostnameMatches example_libraries ''db2.internal.example.com''
     (example_request ''db2.internal.example.com'') = Inr False \<and>
   clientAuthenticated (example_request ''h'' \<lparr>TLS := None\<rparr>) = Inl NilPointerDereference"
  using AuthGate_fail_closed
      [where r = "example_request ''h'' \<lparr>TLS := Some \<lparr>VerifiedChains = []\<rparr>\<rparr>"
         and conn = "\<lparr>VerifiedChains = []\<rparr>" and L = example_libraries and hostname = "''h''"]
    AuthGate_fail_closed
      [where r = "example_request ''db2.internal.example.com''"
         and conn = "\<lparr>VerifiedChains = [example_certificate] # []\<rparr>"
         and leaf = example_certificate and rest = "[]" and others = "[]"
         and L = example_libraries and hostname = "''db2.internal.example.com''"]
    AuthGate_fail_closed
      [where r = "example_request ''h'' \<lparr>TLS := None\<rparr>" and L = example_libraries
         and hostname = "''h''" and conn = "\<lparr>VerifiedChains = []\<rparr>"
         and leaf = "[]" and rest = "[]" and others = "[]"]
  by (simp add: example_request_def example_libraries_def example_certificate_def)

subsection \<open>\<open>Enroll\<close>\<close>

text \<open>\<open>EnrollHost\<close> starts by reading the body: every call of it counts as a read.\<close>

lemma EnrollHost_reads_body:
  "body_reads (snd (EnrollHost L c w hostname r)) = Suc (body_reads w)"
  by (simp add: EnrollHost_def Let_def split: sum.splits prod.splits)

text \<open>
  C3 asks that every request without a verified client certificate chain is answered 401.
  A request that did not arrive over TLS has no such chain, and it is not answered: the
  handler panics in \<open>clientAuthenticated\<close>.
\<close>

theorem Enroll_without_TLS_unanswered:
  "Enroll example_libraries example_context (example_world MySQLDriver [])
     (example_request ''db1.internal.example.com'' \<lparr>TLS := None\<rparr>) =
     (Inl NilPointerDereference, example_world MySQLDriver [])"
  by (simp add: Enroll_def clientAuthenticated_def example_request_def)

text \<open>
  C3, as the code has it. For a request whose TLS connection state has no verified chain,
  \<open>Enroll\<close> answers 401; for a request whose verified leaf certificate does not match the
  host name of the path, it answers 403; a request with no TLS connection state makes the
  handler panic and is not answered. In the three cases the state is returned as it was:
  the body has not been read (\<open>body_reads\<close> is unchanged) and no statement has reached the
  database.
\<close>

theorem Enroll_rejects_before_body_and_storage:
  "(TLS r = Some conn \<and> VerifiedChains conn = [] \<longrightarrow>
      Enroll L c w r =
        (Inr \<lparr>status = 401, body = ''no client certificate provided'' @ [LF]\<rparr>, w)) \<and>
   (TLS r = Some conn \<and> VerifiedChains conn = (leaf # rest) # others \<and>
    VerifyHostname L leaf (path_variable r ''hostname'') \<noteq> None \<longrightarrow>
      Enroll L c w r =
        (Inr \<lparr>status = 403, body = ''hostname does not match certificate'' @ [LF]\<rparr>, w)) \<and>
   (TLS r = None \<longrightarrow> Enroll L c w r = (Inl NilPointerDereference, w))"
  by (simp add: Enroll_def clientAuthenticated_def clientHostnameMatches_def http_Error_def
      StatusUnauthorized_def StatusForbidden_def)

text \<open>
  C3, as the code has it, on a connection without verified chain, on a certificate for
  another host and on a request without TLS connection state.
\<close>

theorem Enroll_rejects_before_body_and_storage_witness:
  "Enroll example_libraries example_context (example_world MySQLDriver [])
     (example_request ''db1.internal.example.com'' \<lparr>TLS := Some \<lparr>VerifiedChains = []\<rparr>\<rparr>) =
     (Inr \<lparr>status = 401, body = ''no client certificate provided'' @ [LF]\<rparr>,
      example_world MySQLDriver []) \<and>
   Enroll example_libraries example_context (example_world MySQLDriver [])
     (example_request ''db2.internal.example.com'') =
     (Inr \<lparr>status = 403, body = ''hostname does not match certificate'' @ [LF]\<rparr>,
      example_world MySQLDriver []) \<and>
   Enroll example_libraries example_context (example_world SQLiteDriver [])
     (example_request ''db2.internal.example.com'' \<lparr>TLS := None\<rparr>) =
     (Inl NilPointerDereference, example_world SQLiteDriver [])"
  using Enroll_rejects_before_body_and_storage
      [where r = "example_request ''db1.internal.example.com'' \<lparr>TLS := Some \<lparr>VerifiedChains = []\<rparr>\<rparr>"
         and conn = "\<lparr>VerifiedChains = []\<rparr>" and L = example_libraries
         and c = example_context and w = "example_world MySQLDriver []"]
    Enroll_rejects_before_body_and_storage
      [where r = "example_request ''db2.internal.example.com''"
         and conn = "\<lparr>VerifiedChains = [example_certificate] # []\<rparr>"
         and leaf = example_certificate and rest = "[]" and others = "[]"
         and L = example_libraries and c = example_context
         and w = "example_world MySQLDriver []"]
    Enroll_rejects_before_body_and_storage
      [where r = "example_request ''db2.internal.example.com'' \<lparr>TLS := None\<rparr>"
         and conn = "\<lparr>VerifiedChains = []\<rparr>"
         and leaf = example_certificate and rest = "[]" and others = "[]"
         and L = example_libraries and c = example_context
         and w = "example_world SQLiteDriver []"]
  by (simp add: example_request_def example_libraries_def example_certificate_def
      path_variable_def)

text \<open>
  What \<open>Enroll\<close> does with an error of \<open>EnrollHost\<close>, for an authorized request: the
  answer is 500 with the text of the error followed by a newline, and the server log gets
  the fixed line \<open>internal error\<close>.
\<close>

lemma Enroll_returns_error_text:
  assumes "clientAuthenticated r = Inr True"
    and "clientHostnameMatches L (path_variable r ''hostname'') r = Inr True"
    and "EnrollHost L c w (path_variable r ''hostname'') r = (Inl err, w')"
  shows "Enroll L c w r =
           (Inr \<lparr>status = 500, body = err @ [LF]\<rparr>,
            w'\<lparr>log_lines := log_lines w' @ [''internal error'']\<rparr>)"
  using assms
  by (simp add: Enroll_def http_Error_def StatusInternalServerError_def)

text \<open>A failure of the driver is returned by \<open>EnrollHost\<close> as it is.\<close>

lemma EnrollHost_storage_fault:
  assumes "Body r = Inr data" and "ParseAuthorizedKey L data = Inr pubkey"
    and "next_fault (host_faults (db w)) = Some e"
  shows "fst (EnrollHost L c w hostname r) = Inl e"
  using assms by (simp add: EnrollHost_def host_Exec_def Let_def)

lemma example_request_passes:
  "clientAuthenticated (example_request ''db1.internal.example.com'') = Inr True"
  "clientHostnameMatches example_libraries
     (path_variable (example_request ''db1.internal.example.com'') ''hostname'')
     (example_request ''db1.internal.example.com'') = Inr True"
  by (simp_all add: clientAuthenticated_def clientHostnameMatches_def example_request_def
      example_libraries_def example_certificate_def path_variable_def)

lemma EnrollHost_example_fault:
  "EnrollHost example_libraries example_context (example_world drv [Some e])
     (path_variable (example_request ''db1.internal.example.com'') ''hostname'')
     (example_request ''db1.internal.example.com'') =
   (Inl e,
    \<lparr>db = \<lparr>Driver = drv, host_rows = [], host_next_id = 1, host_session_insert_id = 0,
           host_dup_insert_id = (\<lambda>changed last row. row), host_faults = []\<rparr>,
     log_lines = [], body_reads = 1\<rparr>)"
  by (simp add: EnrollHost_def host_Exec_def Let_def example_world_def example_request_def
      example_libraries_def next_fault_def)

text \<open>
  C6 asks that the caller never sees the text of an internal error, only a generic
  message. Here the connection to the database is refused: the body of the 500 response is
  the text of the driver, and the generic message \<open>internal error\<close> is what the server
  log gets.
\<close>

theorem Enroll_leaks_driver_error:
  "Enroll example_libraries example_context
     (example_world MySQLDriver [Some ''dial tcp 10.0.0.5:3306: connect: connection refused''])
     (example_request ''db1.internal.example.com'') =
   (Inr \<lparr>status = 500,
         body = ''dial tcp 10.0.0.5:3306: connect: connection refused'' @ [LF]\<rparr>,
    \<lparr>db = \<lparr>Driver = MySQLDriver, host_rows = [], host_next_id = 1,
           host_session_insert_id = 0, host_dup_insert_id = (\<lambda>changed last row. row),
           host_faults = []\<rparr>,
     log_lines = [''internal error''], body_reads = 1\<rparr>)"
  using Enroll_returns_error_text [OF example_request_passes EnrollHost_example_fault]
  by simp

subsection \<open>\<open>signHost\<close>\<close>

lemma HasSuffix_iff: "HasSuffix s x \<longleftrightarrow> (\<exists>p. s = p @ x)"
proof
  assume h: "HasSuffix s x"
  then have "s = take (length s - length x) s @ x"
    by (metis HasSuffix_def append_take_drop_id)
  then show "\<exists>p. s = p @ x" ..
next
  assume "\<exists>p. s = p @ x"
  then show "HasSuffix s x" by (auto simp: HasSuffix_def)
qed

lemma TrimSuffix_append: "TrimSuffix (p @ x) x = p"
  by (simp add: TrimSuffix_def HasSuffix_def)

text \<open>What a successful read delivers: as many bytes as asked, each one from the reader.\<close>

lemma ReadFull_length:
  assumes "ReadFull r n = Inr bs"
  shows "length bs = n"
  using assms
  by (induction n arbitrary: r bs) (auto split: sum.splits)

lemma ReadFull_bytes:
  assumes "ReadFull r n = Inr bs" and "i < n"
  shows "r i = Inr (bs ! i)"
  using assms
proof (induction n arbitrary: r bs i)
  case 0
  then show ?case by simp
next
  case (Suc n)
  from Suc.prems(1) obtain b bs' where
    b: "r 0 = Inr b" and bs': "ReadFull (\<lambda>i. r (Suc i)) n = Inr bs'" and bs: "bs = b # bs'"
    by (auto split: sum.splits)
  show ?case
  proof (cases i)
    case 0
    with b bs show ?thesis by simp
  next
    case (Suc j)
    with Suc.prems(2) have "j < n" by simp
    from Suc.IH [OF bs' this] show ?thesis by (simp add: bs Suc)
  qed
qed

lemma ReadFull_stream:
  assumes "\<And>i. i < n \<Longrightarrow> r i = Inr (f i)"
  shows "ReadFull r n = Inr (map f [0..<n])"
  using assms
proof (induction n arbitrary: r f)
  case 0
  then show ?case by simp
next
  case (Suc n)
  have "ReadFull (\<lambda>i. r (Suc i)) n = Inr (map (\<lambda>i. f (Suc i)) [0..<n])"
    by (rule Suc.IH) (simp add: Suc.prems)
  moreover have "r 0 = Inr (f 0)" by (simp add: Suc.prems)
  moreover have "map f [0..<Suc n] = f 0 # map (\<lambda>i. f (Suc i)) [0..<n]"
    by (simp add: upt_conv_Cons map_Suc_upt [symmetric] del: upt_Suc)
  ultimately show ?case by simp
qed

lemma ReadFull_error:
  assumes "r 0 = Inl err" and "0 < n"
  shows "ReadFull r n = Inl err"
  using assms by (cases n) simp_all

text \<open>
  \<open>SignCert\<close> replaces the nonce by what it reads and leaves the fields of the template
  that \<open>signHost\<close> has set.
\<close>

lemma SignCert_fields:
  assumes "SignCert L t rand authority = Inr cert"
  shows "ReadFull rand 32 = Inr (Nonce cert) \<and>
         ValidPrincipals cert = ValidPrincipals t \<and> Key cert = Key t \<and> Serial cert = Serial t \<and>
         KeyId cert = KeyId t \<and> CertType cert = CertType t"
  using assms by (auto simp: SignCert_def Let_def split: sum.splits)

text \<open>
  A certificate that \<open>signHost\<close> returns is the signing of the template, for which the
  first read of 32 bytes and the parsing of the duration have succeeded.
\<close>

lemma signHost_template:
  assumes "signHost L c hostname serial pubkey = Inr cert"
  shows "\<exists>nonce week t.
     ReadFull (rand_Reader L) 32 = Inr nonce \<and>
     ParseDuration L (CertDuration (conf c)) = Inr week \<and>
     Nonce t = nonce \<and> Key t = pubkey \<and> Serial t = serial \<and>
     CertType t = sshHostCertificateType \<and> KeyId t = hostname \<and>
     ValidPrincipals t =
       (if StripSuffix (conf c) \<noteq> [] \<and> HasSuffix hostname (StripSuffix (conf c))
        then [hostname, TrimSuffix hostname (StripSuffix (conf c))] else [hostname]) @
       (case Aliases (conf c) hostname of Some aliases \<Rightarrow> aliases | None \<Rightarrow> []) \<and>
     ValidAfter t = word_of_int (Unix (time_Now L)) \<and>
     ValidBefore t = word_of_int (Unix (time_Now L + week)) \<and>
     SignCert L t (advance (rand_Reader L) 32) (signer c) = Inr cert"
proof -
  obtain nonce where n: "ReadFull (rand_Reader L) 32 = Inr nonce"
    using assms by (cases "ReadFull (rand_Reader L) 32") (simp_all add: signHost_def rand_Read_def)
  obtain week where w: "ParseDuration L (CertDuration (conf c)) = Inr week"
    using assms n
    by (cases "ParseDuration L (CertDuration (conf c))")
       (simp_all add: signHost_def rand_Read_def Let_def)
  let ?t = "\<lparr>Nonce = nonce, Key = pubkey, Serial = serial,
        CertType = sshHostCertificateType, KeyId = hostname,
        ValidPrincipals =
          (if StripSuffix (conf c) \<noteq> [] \<and> HasSuffix hostname (StripSuffix (conf c))
           then [hostname, TrimSuffix hostname (StripSuffix (conf c))] else [hostname]) @
          (case Aliases (conf c) hostname of Some aliases \<Rightarrow> aliases | None \<Rightarrow> []),
        ValidAfter = word_of_int (Unix (time_Now L)),
        ValidBefore = word_of_int (Unix (time_Now L + week)),
        SignatureKey = None, Signature = None\<rparr>"
  have "SignCert L ?t (advance (rand_Reader L) 32) (signer c) = Inr cert"
    using assms n w
    by (auto simp: signHost_def rand_Read_def Let_def split: option.splits if_splits)
  then have "ReadFull (rand_Reader L) 32 = Inr nonce \<and>
     ParseDuration L (CertDuration (conf c)) = Inr week \<and>
     Nonce ?t = nonce \<and> Key ?t = pubkey \<and> Serial ?t = serial \<and>
     CertType ?t = sshHostCertificateType \<and> KeyId ?t = hostname \<and>
     ValidPrincipals ?t =
       (if StripSuffix (conf c) \<noteq> [] \<and> HasSuffix hostname (StripSuffix (conf c))
        then [hostname, TrimSuffix hostname (StripSuffix (conf c))] else [hostname]) @
       (case Aliases (conf c) hostname of Some aliases \<Rightarrow> aliases | None \<Rightarrow> []) \<and>
     ValidAfter ?t = word_of_int (Unix (time_Now L)) \<and>
     ValidBefore ?t = word_of_int (Unix (time_Now L + week)) \<and>
     SignCert L ?t (advance (rand_Reader L) 32) (signer c) = Inr cert"
    using n w by simp
  then show ?thesis by blast
qed

text \<open>
  \<open>signHost\<close> returns: when the first read and the parsing of the duration succeed, its
  result is that of \<open>SignCert\<close> on the template.
\<close>

lemma signHost_success:
  assumes "ReadFull (rand_Reader L) 32 = Inr nonce"
    and "ParseDuration L (CertDuration (conf c)) = Inr week"
  shows "\<exists>t. Nonce t = nonce \<and> Serial t = serial \<and> Key t = pubkey \<and>
           signHost L c hostname serial pubkey =
             SignCert L t (advance (rand_Reader L) 32) (signer c)"
proof -
  let ?p = "(if StripSuffix (conf c) \<noteq> [] \<and> HasSuffix hostname (StripSuffix (conf c))
             then [hostname, TrimSuffix hostname (StripSuffix (conf c))] else [hostname]) @
            (case Aliases (conf c) hostname of Some aliases \<Rightarrow> aliases | None \<Rightarrow> [])"
  let ?t = "\<lparr>Nonce = nonce, Key = pubkey, Serial = serial,
        CertType = sshHostCertificateType, KeyId = hostname, ValidPrincipals = ?p,
        ValidAfter = word_of_int (Unix (time_Now L)),
        ValidBefore = word_of_int (Unix (time_Now L + week)),
        SignatureKey = None, Signature = None\<rparr>"
  have "signHost L c hostname serial pubkey =
          SignCert L ?t (advance (rand_Reader L) 32) (signer c)"
    using assms
    by (auto simp: signHost_def rand_Read_def Let_def split: option.splits)
  then have "Nonce ?t = nonce \<and> Serial ?t = serial \<and> Key ?t = pubkey \<and>
           signHost L c hostname serial pubkey =
             SignCert L ?t (advance (rand_Reader L) 32) (signer c)"
    by simp
  then show ?thesis by (rule exI)
qed

text \<open>
  \<open>signHost\<close> on the example: the first 32 bytes of the source go to the template, the
  certificate carries the next 32.
\<close>

lemma example_reads:
  "ReadFull (rand_Reader example_libraries) 32 = Inr (map (\<lambda>i. of_nat (i + 1)) [0..<32])"
  "ReadFull (advance (rand_Reader example_libraries) 32) 32 =
     Inr (map (\<lambda>i. of_nat (i + 33)) [0..<32])"
  by (rule ReadFull_stream, simp add: example_libraries_def advance_def)+

lemma signHost_example:
  "signHost example_libraries example_context ''db1.internal.example.com'' serial pubkey =
     Inr \<lparr>Nonce = map (\<lambda>i. of_nat (i + 33)) [0..<32], Key = pubkey, Serial = serial,
          CertType = 2, KeyId = ''db1.internal.example.com'',
          ValidPrincipals = [''db1.internal.example.com'', ''db1''],
          ValidAfter = 1500000000, ValidBefore = 1500604800,
          SignatureKey = Some \<lparr>key_Type = ''ssh-ed25519'', key_Marshal = []\<rparr>,
          Signature = Some []\<rparr>"
proof -
  have "ParseDuration example_libraries (CertDuration (conf example_context)) =
          Inr 604800000000000"
    by (simp add: example_libraries_def example_context_def)
  then show ?thesis
    unfolding signHost_def rand_Read_def SignCert_def length_replicate example_reads
    by (simp add: example_libraries_def example_context_def HasSuffix_def TrimSuffix_def
        Unix_def sshHostCertificateType_def Let_def)
qed

text \<open>
  C7. The principals of a certificate signed by \<open>signHost\<close> are the requested host name,
  then the host name without the configured suffix when that suffix is not empty and the
  host name ends with it, then the aliases configured for that host name, in their order.
\<close>

theorem signHost_principals:
  assumes "signHost L c hostname serial pubkey = Inr cert"
  shows "(\<forall>p. StripSuffix (conf c) \<noteq> [] \<and> hostname = p @ StripSuffix (conf c) \<longrightarrow>
            ValidPrincipals cert =
              hostname # p # (case Aliases (conf c) hostname of Some aliases \<Rightarrow> aliases | None \<Rightarrow> [])) \<and>
         (StripSuffix (conf c) = [] \<or> (\<forall>p. hostname \<noteq> p @ StripSuffix (conf c)) \<longrightarrow>
            ValidPrincipals cert =
              hostname # (case Aliases (conf c) hostname of Some aliases \<Rightarrow> aliases | None \<Rightarrow> []))"
proof -
  from signHost_template [OF assms] obtain t where
    t: "SignCert L t (advance (rand_Reader L) 32) (signer c) = Inr cert" and
    p: "ValidPrincipals t =
          (if StripSuffix (conf c) \<noteq> [] \<and> HasSuffix hostname (StripSuffix (conf c))
           then [hostname, TrimSuffix hostname (StripSuffix (conf c))] else [hostname]) @
          (case Aliases (conf c) hostname of Some aliases \<Rightarrow> aliases | None \<Rightarrow> [])"
    by fastforce
  have v: "ValidPrincipals cert = ValidPrincipals t"
    using SignCert_fields [OF t] by simp
  show ?thesis
    unfolding v p by (auto simp: HasSuffix_iff TrimSuffix_append)
qed

text \<open>
  C7 for \<open>db1.internal.example.com\<close>, the suffix \<open>.internal.example.com\<close> and no alias:
  the principals are \<open>db1.internal.example.com\<close> and \<open>db1\<close>, in that order.
\<close>

theorem signHost_principals_witness:
  "\<exists>cert. signHost example_libraries example_context ''db1.internal.example.com'' 7
            example_key = Inr cert \<and>
          ValidPrincipals cert = [''db1.internal.example.com'', ''db1'']"
proof -
  obtain cert where
    c: "signHost example_libraries example_context ''db1.internal.example.com'' 7
          example_key = Inr cert"
    using signHost_example by blast
  have "StripSuffix (conf example_context) \<noteq> [] \<and>
        ''db1.internal.example.com'' = ''db1'' @ StripSuffix (conf example_context)"
    by (simp add: example_context_def)
  with signHost_principals [OF c] have "ValidPrincipals cert =
      ''db1.internal.example.com'' # ''db1'' #
      (case Aliases (conf example_context) ''db1.internal.example.com'' of
         Some aliases \<Rightarrow> aliases | None \<Rightarrow> [])"
    by blast
  then have "ValidPrincipals cert = [''db1.internal.example.com'', ''db1'']"
    by (simp add: example_context_def)
  with c show ?thesis by blast
qed

text \<open>
  C9. \<open>signHost\<close> reads 32 bytes of the random source for the nonce; if that read fails,
  it returns the error of the read at once, whatever the configuration, and no
  certificate. If the read that \<open>SignCert\<close> makes of the same source fails, \<open>signHost\<close>
  returns an error and no certificate either. Every certificate that \<open>signHost\<close> returns
  carries a nonce of 32 bytes, each of them delivered by the random source: they are the
  32 bytes that follow the 32 of the first read.
\<close>

theorem signHost_nonce:
  "(ReadFull (rand_Reader L) 32 = Inl err \<longrightarrow>
      signHost L c hostname serial pubkey = Inl err) \<and>
   (ReadFull (advance (rand_Reader L) 32) 32 = Inl err \<longrightarrow>
      (\<exists>e. signHost L c hostname serial pubkey = Inl e)) \<and>
   (signHost L c hostname serial pubkey = Inr cert \<longrightarrow>
      length (Nonce cert) = 32 \<and>
      (\<forall>i<32. rand_Reader L (32 + i) = Inr (Nonce cert ! i)) \<and>
      ReadFull (advance (rand_Reader L) 32) 32 = Inr (Nonce cert) \<and>
      (\<exists>nonce. ReadFull (rand_Reader L) 32 = Inr nonce \<and> length nonce = 32))"
proof (intro conjI impI)
  assume "ReadFull (rand_Reader L) 32 = Inl err"
  then show "signHost L c hostname serial pubkey = Inl err"
    by (simp add: signHost_def rand_Read_def)
next
  assume f: "ReadFull (advance (rand_Reader L) 32) 32 = Inl err"
  show "\<exists>e. signHost L c hostname serial pubkey = Inl e"
  proof (cases "signHost L c hostname serial pubkey")
    case (Inl e)
    then show ?thesis by blast
  next
    case (Inr cert')
    from signHost_template [OF this] obtain t where
      "SignCert L t (advance (rand_Reader L) 32) (signer c) = Inr cert'"
      by blast
    from SignCert_fields [OF this] f show ?thesis by simp
  qed
next
  assume s: "signHost L c hostname serial pubkey = Inr cert"
  from signHost_template [OF s] obtain nonce t where
    n: "ReadFull (rand_Reader L) 32 = Inr nonce" and
    t: "SignCert L t (advance (rand_Reader L) 32) (signer c) = Inr cert"
    by blast
  from SignCert_fields [OF t] have
    r: "ReadFull (advance (rand_Reader L) 32) 32 = Inr (Nonce cert)"
    by simp
  show "length (Nonce cert) = 32"
    by (rule ReadFull_length [OF r])
  show "\<forall>i<32. rand_Reader L (32 + i) = Inr (Nonce cert ! i)"
    using ReadFull_bytes [OF r] by (simp add: advance_def add.commute)
  show "ReadFull (advance (rand_Reader L) 32) 32 = Inr (Nonce cert)"
    by (rule r)
  show "\<exists>nonce. ReadFull (rand_Reader L) 32 = Inr nonce \<and> length nonce = 32"
    using n ReadFull_length [OF n] by blast
qed

text \<open>
  C9 with a random source that fails at once, with one that fails after 40 bytes, and
  with the working one of the example.
\<close>

theorem signHost_nonce_witness:
  "signHost (example_libraries\<lparr>rand_Reader := (\<lambda>i. Inl ''unexpected EOF'')\<rparr>) example_context
     ''db1.internal.example.com'' 7 example_key = Inl ''unexpected EOF'' \<and>
   (\<exists>e. signHost
          (example_libraries
             \<lparr>rand_Reader := (\<lambda>i. if i < 40 then Inr 0 else Inl ''unexpected EOF'')\<rparr>)
          example_context ''db1.internal.example.com'' 7 example_key = Inl e) \<and>
   (\<exists>cert.
      signHost example_libraries example_context ''db1.internal.example.com'' 7 example_key =
        Inr cert \<and>
      length (Nonce cert) = 32 \<and>
      (\<forall>i<32. rand_Reader example_libraries (32 + i) = Inr (Nonce cert ! i)) \<and>
      ReadFull (advance (rand_Reader example_libraries) 32) 32 = Inr (Nonce cert))"
proof -
  let ?L1 = "example_libraries\<lparr>rand_Reader := (\<lambda>i. Inl ''unexpected EOF'')\<rparr>"
  let ?L2 = "example_libraries
               \<lparr>rand_Reader := (\<lambda>i. if i < 40 then Inr 0 else Inl ''unexpected EOF'')\<rparr>"
  have r1: "ReadFull (rand_Reader ?L1) 32 = Inl ''unexpected EOF''"
    by (rule ReadFull_error) simp_all
  have r2: "ReadFull (advance (rand_Reader ?L2) 32) 32 = Inl ''unexpected EOF''"
    by (simp add: advance_def eval_nat_numeral)
  obtain cert where
    c: "signHost example_libraries example_context ''db1.internal.example.com'' 7 example_key =
          Inr cert"
    using signHost_example by blast
  show ?thesis
    using signHost_nonce [THEN conjunct1, rule_format, OF r1]
      signHost_nonce [THEN conjunct2, THEN conjunct1, rule_format, OF r2]
      signHost_nonce [THEN conjunct2, THEN conjunct2, rule_format, OF c] c
    by blast
qed

subsection \<open>The upsert of \<open>EnrollHost\<close>\<close>

lemma EnrollHost_db:
  assumes "Body r = Inr data" and "ParseAuthorizedKey L data = Inr pubkey"
  shows "db (snd (EnrollHost L c w hostname r)) =
     snd (if Driver (db w) = SQLiteDriver
          then host_Exec (db w) sqlite_replace_sql [TrimLeft data [LF], hostname]
          else host_Exec (db w) mysql_upsert_sql
                 [hostname, TrimLeft data [LF], TrimLeft data [LF]])"
  using assms
  by (simp add: EnrollHost_def Result_LastInsertId_def Let_def split: sum.splits prod.splits)

text \<open>
  On SQLite, for every library whose parser accepts the body and with no failure of the
  driver: the row that \<open>EnrollHost\<close> writes has the key text in the column \<open>hostname\<close>
  and the host name in the column \<open>pubkey\<close>.
\<close>

lemma EnrollHost_sqlite_row:
  assumes "Body r = Inr data" and "ParseAuthorizedKey L data = Inr pubkey"
    and "Driver (db w) = SQLiteDriver" and "next_fault (host_faults (db w)) = None"
  shows "host_rows (db (snd (EnrollHost L c w hostname r))) =
           filter (\<lambda>row. host_hostname row \<noteq> TrimLeft data [LF]) (host_rows (db w)) @
           [\<lparr>host_id = host_next_id (db w), host_hostname = TrimLeft data [LF],
             host_pubkey = hostname\<rparr>]"
  unfolding EnrollHost_db [OF assms(1,2)]
  using assms(3,4) by (simp add: host_Exec_def insert_or_replace_def)

lemma example_body:
  "Body (example_request h) = Inr example_key_text"
  "ParseAuthorizedKey example_libraries example_key_text = Inr example_key"
  by (simp_all add: example_request_def example_libraries_def)

lemma example_key_trim: "TrimLeft example_key_text [LF] = example_key_text"
  by (simp add: TrimLeft_def example_key_text_def LF_def)

text \<open>
  C2 asks that two enrollments of the same host with the same key leave one row keyed by
  the host, holding the key. On SQLite the arguments of the statement are in the other
  order than its columns: after two enrollments of \<open>db1.internal.example.com\<close> with the
  ed25519 key of the example, the table has one row, whose \<open>hostname\<close> is the key text
  and whose \<open>pubkey\<close> is the host name.
\<close>

theorem EnrollHost_sqlite_swaps_columns:
  "host_rows (db (snd (EnrollHost example_libraries example_context
      (snd (EnrollHost example_libraries example_context (example_world SQLiteDriver [])
              ''db1.internal.example.com'' (example_request ''db1.internal.example.com'')))
      ''db1.internal.example.com'' (example_request ''db1.internal.example.com'')))) =
     [\<lparr>host_id = 2, host_hostname = example_key_text,
       host_pubkey = ''db1.internal.example.com''\<rparr>]"
proof -
  let ?w1 = "snd (EnrollHost example_libraries example_context (example_world SQLiteDriver [])
              ''db1.internal.example.com'' (example_request ''db1.internal.example.com''))"
  have 1: "db ?w1 =
     \<lparr>Driver = SQLiteDriver,
      host_rows = [\<lparr>host_id = 1, host_hostname = example_key_text,
                    host_pubkey = ''db1.internal.example.com''\<rparr>],
      host_next_id = 2, host_session_insert_id = 1,
      host_dup_insert_id = (\<lambda>changed last row. row), host_faults = []\<rparr>"
    unfolding EnrollHost_db [OF example_body]
    by (simp add: example_world_def host_Exec_def next_fault_def insert_or_replace_def
        example_key_trim)
  have 2: "db (snd (EnrollHost example_libraries example_context ?w1
              ''db1.internal.example.com'' (example_request ''db1.internal.example.com''))) =
     snd (if Driver (db ?w1) = SQLiteDriver
          then host_Exec (db ?w1) sqlite_replace_sql
                 [TrimLeft example_key_text [LF], ''db1.internal.example.com'']
          else host_Exec (db ?w1) mysql_upsert_sql
                 [''db1.internal.example.com'', TrimLeft example_key_text [LF],
                  TrimLeft example_key_text [LF]])"
    by (rule EnrollHost_db [OF example_body])
  show ?thesis
    unfolding 2 unfolding 1
    by (simp add: host_Exec_def next_fault_def insert_or_replace_def example_key_trim)
qed

text \<open>The same two enrollments on MySQL: one row, keyed by the host, holding the key.\<close>

lemma EnrollHost_mysql_keeps_one_row:
  "host_rows (db (snd (EnrollHost example_libraries example_context
      (snd (EnrollHost example_libraries example_context (example_world MySQLDriver [])
              ''db1.internal.example.com'' (example_request ''db1.internal.example.com'')))
      ''db1.internal.example.com'' (example_request ''db1.internal.example.com'')))) =
     [\<lparr>host_id = 1, host_hostname = ''db1.internal.example.com'',
       host_pubkey = example_key_text\<rparr>]"
proof -
  let ?w1 = "snd (EnrollHost example_libraries example_context (example_world MySQLDriver [])
              ''db1.internal.example.com'' (example_request ''db1.internal.example.com''))"
  have 1: "db ?w1 =
     \<lparr>Driver = MySQLDriver,
      host_rows = [\<lparr>host_id = 1, host_hostname = ''db1.internal.example.com'',
                    host_pubkey = example_key_text\<rparr>],
      host_next_id = 2, host_session_insert_id = 1,
      host_dup_insert_id = (\<lambda>changed last row. row), host_faults = []\<rparr>"
    unfolding EnrollHost_db [OF example_body]
    by (simp add: example_world_def host_Exec_def next_fault_def insert_on_duplicate_update_def
        example_key_trim)
  have 2: "db (snd (EnrollHost example_libraries example_context ?w1
              ''db1.internal.example.com'' (example_request ''db1.internal.example.com''))) =
     snd (if Driver (db ?w1) = SQLiteDriver
          then host_Exec (db ?w1) sqlite_replace_sql
                 [TrimLeft example_key_text [LF], ''db1.internal.example.com'']
          else host_Exec (db ?w1) mysql_upsert_sql
                 [''db1.internal.example.com'', TrimLeft example_key_text [LF],
                  TrimLeft example_key_text [LF]])"
    by (rule EnrollHost_db [OF example_body])
  show ?thesis
    unfolding 2 unfolding 1
    by (simp add: host_Exec_def next_fault_def insert_on_duplicate_update_def
        example_key_trim)
qed

end
